theory Spec2Isabelle
  imports Main "HOL-Library.AList" "HOL-Library.Sublist"
begin

section \<open>The chat server: data stores\<close>

text \<open>
  The server (server.js) keeps five process-wide stores and registers one handler per
  client event. A JavaScript \<^verbatim>\<open>Map\<close> iterates in insertion order, a \<^verbatim>\<open>set\<close> on a key
  that is present replaces the value in place and a \<^verbatim>\<open>delete\<close> removes the entry: this
  is an association list under \<open>AList.update\<close>, \<open>AList.delete\<close> and \<open>map_of\<close>. A JavaScript
  \<^verbatim>\<open>Set\<close> is an insertion-ordered list without duplicates. The \<^verbatim>\<open>reactions\<close> object of a
  message is a dictionary from reaction kind to an array of usernames.
\<close>

type_synonym socket_id = string
type_synonym room_id = string
type_synonym username = string
type_synonym message_id = string
type_synonym timestamp = string

record user =
  uid :: socket_id
  username :: username
  avatar :: "string option"
  joinedAt :: timestamp
  currentRoom :: room_id
  status :: string

record chat_room =
  rid :: room_id
  rname :: string
  createdBy :: "username option"
  createdAt :: timestamp
  isPrivate :: "bool option"

record file_data =
  filename :: string
  originalName :: string
  size :: nat
  mimetype :: string
  url :: string

datatype msg_type = Text | File

text \<open>
  A stored message. A text message has a \<^verbatim>\<open>message\<close> and a \<^verbatim>\<open>readBy\<close> field and no
  \<^verbatim>\<open>fileData\<close>; a file message has \<^verbatim>\<open>fileData\<close> and neither of the other two.
\<close>

record chat_message =
  mid :: message_id
  sender :: username
  senderId :: socket_id
  message :: "string option"
  room :: room_id
  timestamp :: timestamp
  mtype :: msg_type
  fileData :: "file_data option"
  reactions :: "string \<rightharpoonup> username list"
  readBy :: "username list option"

record private_msg =
  pm_id :: message_id
  pm_sender :: username
  pm_senderId :: socket_id
  pm_message :: string
  pm_timestamp :: timestamp

record server =
  users :: "(socket_id \<times> user) list"
  rooms :: "(room_id \<times> chat_room) list"
  messages :: "(room_id \<times> chat_message list) list"
  typingUsers :: "(room_id \<times> username list) list"
  readReceipts :: "(message_id \<times> socket_id list) list"

text \<open>
  What a handler reads from its environment while it runs: the value of \<^verbatim>\<open>uuidv4()\<close> and
  of \<^verbatim>\<open>new Date().toISOString()\<close>.
\<close>

record env =
  uuid :: string
  now :: timestamp

subsection \<open>What a handler does to the transport\<close>

datatype target =
    Everyone
  | ToRoom room_id
  | ToRoomExcept room_id socket_id
  | ToSender
  | ToOthersIn room_id

datatype payload =
    UserList "user list"
  | UserJoined user room_id
  | RoomList "chat_room list"
  | MessageHistory room_id "chat_message list"
  | ReceiveMessage chat_message
  | TypingUsers "username list" room_id
  | PrivateMessage private_msg bool
  | MessageUpdated chat_message
  | ReadReceipt message_id socket_id username
  | UserJoinedRoom user room_id
  | RoomCreated chat_room
  | UserLeft user room_id
  | UserStatusChanged socket_id username string

datatype io_action =
    SocketJoin room_id
  | SocketLeave room_id
  | Emit target payload

datatype js_error = TypeError

subsection \<open>The events a client sends\<close>

text \<open>
  A field with a default in the handler's parameter list (\<^verbatim>\<open>room = DEFAULT_ROOM\<close>,
  \<^verbatim>\<open>avatar = null\<close>, \<^verbatim>\<open>isPrivate = false\<close>) is an option: \<open>None\<close> is the field left out.
  The other fields have the types of the documented payloads.

  Every handler but the one of disconnect takes its payload apart in its parameter list
  (\<^verbatim>\<open>({ message, room = DEFAULT_ROOM }) => ...\<close>). A client may emit the event with no
  payload, or with \<^verbatim>\<open>null\<close>: that is \<open>NoPayload\<close> with the name of the event.
\<close>

datatype event_name =
    OnUserJoin
  | OnSendMessage
  | OnTyping
  | OnPrivateMessage
  | OnAddReaction
  | OnMarkAsRead
  | OnJoinRoom
  | OnCreateRoom
  | OnFileUploaded
  | OnUpdateStatus

datatype event =
    UserJoin username "string option"
  | SendMessage string "room_id option"
  | Typing bool "room_id option"
  | PrivateMsg socket_id string
  | AddReaction message_id string "room_id option"
  | MarkAsRead message_id "room_id option"
  | JoinRoom room_id
  | CreateRoom string "bool option"
  | FileUploaded file_data "room_id option"
  | Disconnect
  | UpdateStatus string
  | NoPayload event_name

section \<open>Helpers of the JavaScript runtime\<close>

definition set_add :: "'a \<Rightarrow> 'a list \<Rightarrow> 'a list" where
  "set_add x xs = (if x \<in> set xs then xs else xs @ [x])"

definition set_delete :: "'a \<Rightarrow> 'a list \<Rightarrow> 'a list" where
  "set_delete x xs = removeAll x xs"

text \<open>\<^verbatim>\<open>xs.slice(-n)\<close>: the last \<open>n\<close> elements, all of them when there are fewer.\<close>

definition slice_last :: "nat \<Rightarrow> 'a list \<Rightarrow> 'a list" where
  "slice_last n xs = (if length xs \<le> n then xs else drop (length xs - n) xs)"

text \<open>
  \<^verbatim>\<open>xs.find(p)\<close> is \<open>List.find\<close>. The object it returns is then mutated in place: the
  first element that satisfies \<open>p\<close> is replaced.
\<close>

fun update_first :: "('a \<Rightarrow> bool) \<Rightarrow> ('a \<Rightarrow> 'a) \<Rightarrow> 'a list \<Rightarrow> 'a list" where
  "update_first p f [] = []"
| "update_first p f (x # xs) = (if p x then f x # xs else x # update_first p f xs)"

text \<open>
  \<^verbatim>\<open>reactions\<close> is created as the object literal \<^verbatim>\<open>{}\<close>, so a lookup of a name that
  \<^verbatim>\<open>Object.prototype\<close> defines finds the inherited member, which is not an array.
\<close>

definition object_prototype_keys :: "string list" where
  "object_prototype_keys =
     [''constructor'', ''__defineGetter__'', ''__defineSetter__'', ''hasOwnProperty'',
      ''__lookupGetter__'', ''__lookupSetter__'', ''isPrototypeOf'',
      ''propertyIsEnumerable'', ''toString'', ''valueOf'', ''__proto__'',
      ''toLocaleString'']"

section \<open>The server\<close>

definition DEFAULT_ROOM :: room_id where
  "DEFAULT_ROOM = ''global''"

text \<open>The stores after the module has been loaded at time \<open>t0\<close>.\<close>

definition init_server :: "timestamp \<Rightarrow> server" where
  "init_server t0 =
     \<lparr> users = [],
       rooms = [(DEFAULT_ROOM,
                 \<lparr> rid = DEFAULT_ROOM, rname = ''Global Chat'', createdBy = None,
                   createdAt = t0, isPrivate = None \<rparr>)],
       messages = [(DEFAULT_ROOM, [])],
       typingUsers = [(DEFAULT_ROOM, [])],
       readReceipts = [] \<rparr>"

definition getUserInfo :: "server \<Rightarrow> socket_id \<Rightarrow> user option" where
  "getUserInfo s socketId = map_of (users s) socketId"

text \<open>An empty string is falsy, so \<^verbatim>\<open>if (excludeSocketId)\<close> takes the else branch on it.\<close>

definition broadcastToRoom :: "room_id \<Rightarrow> payload \<Rightarrow> socket_id option \<Rightarrow> io_action" where
  "broadcastToRoom roomId data excludeSocketId =
     (case excludeSocketId of
        None \<Rightarrow> Emit (ToRoom roomId) data
      | Some x \<Rightarrow> if x = [] then Emit (ToRoom roomId) data
                  else Emit (ToRoomExcept roomId x) data)"

definition room_or_default :: "room_id option \<Rightarrow> room_id" where
  "room_or_default r = (case r of None \<Rightarrow> DEFAULT_ROOM | Some x \<Rightarrow> x)"

text \<open>\<^verbatim>\<open>messages.get(room) || []\<close>\<close>

definition room_log :: "server \<Rightarrow> room_id \<Rightarrow> chat_message list" where
  "room_log s r = (case map_of (messages s) r of None \<Rightarrow> [] | Some l \<Rightarrow> l)"

subsection \<open>user_join\<close>

definition user_join ::
  "env \<Rightarrow> socket_id \<Rightarrow> username \<Rightarrow> string option \<Rightarrow> server \<Rightarrow> server \<times> io_action list" where
  "user_join e sid name av s =
     (let u = \<lparr> uid = sid, username = name, avatar = av, joinedAt = now e,
                currentRoom = DEFAULT_ROOM, status = ''online'' \<rparr>;
          s' = s\<lparr> users := AList.update sid u (users s) \<rparr>
      in (s',
          [SocketJoin DEFAULT_ROOM,
           Emit Everyone (UserList (map snd (users s'))),
           broadcastToRoom DEFAULT_ROOM (UserJoined u DEFAULT_ROOM) None,
           Emit ToSender (RoomList (map snd (rooms s'))),
           Emit ToSender (MessageHistory DEFAULT_ROOM (slice_last 50 (room_log s' DEFAULT_ROOM)))]))"

subsection \<open>send_message and file_uploaded\<close>

definition text_message :: "env \<Rightarrow> socket_id \<Rightarrow> user \<Rightarrow> string \<Rightarrow> room_id \<Rightarrow> chat_message" where
  "text_message e sid u txt r =
     \<lparr> mid = uuid e, sender = username u, senderId = sid, message = Some txt, room = r,
       timestamp = now e, mtype = Text, fileData = None, reactions = Map.empty,
       readBy = Some [] \<rparr>"

definition file_message :: "env \<Rightarrow> socket_id \<Rightarrow> user \<Rightarrow> file_data \<Rightarrow> room_id \<Rightarrow> chat_message" where
  "file_message e sid u fd r =
     \<lparr> mid = uuid e, sender = username u, senderId = sid, message = None, room = r,
       timestamp = now e, mtype = File, fileData = Some fd, reactions = Map.empty,
       readBy = None \<rparr>"

definition send_message ::
  "env \<Rightarrow> socket_id \<Rightarrow> string \<Rightarrow> room_id option \<Rightarrow> server \<Rightarrow> server \<times> io_action list" where
  "send_message e sid txt ropt s =
     (case getUserInfo s sid of
        None \<Rightarrow> (s, [])
      | Some u \<Rightarrow>
          let r = room_or_default ropt;
              messageData = text_message e sid u txt r;
              pushed = room_log s r @ [messageData];
              roomMessages = (if length pushed > 100 then tl pushed else pushed)
          in (s\<lparr> messages := AList.update r roomMessages (messages s) \<rparr>,
              [broadcastToRoom r (ReceiveMessage messageData) None]))"

definition file_uploaded ::
  "env \<Rightarrow> socket_id \<Rightarrow> file_data \<Rightarrow> room_id option \<Rightarrow> server \<Rightarrow> server \<times> io_action list" where
  "file_uploaded e sid fd ropt s =
     (case getUserInfo s sid of
        None \<Rightarrow> (s, [])
      | Some u \<Rightarrow>
          let r = room_or_default ropt;
              messageData = file_message e sid u fd r
          in (s\<lparr> messages := AList.update r (room_log s r @ [messageData]) (messages s) \<rparr>,
              [broadcastToRoom r (ReceiveMessage messageData) None]))"

subsection \<open>typing\<close>

definition typing ::
  "socket_id \<Rightarrow> bool \<Rightarrow> room_id option \<Rightarrow> server \<Rightarrow> server \<times> io_action list" where
  "typing sid isTyping ropt s =
     (case getUserInfo s sid of
        None \<Rightarrow> (s, [])
      | Some u \<Rightarrow>
          let r = room_or_default ropt;
              current = (case map_of (typingUsers s) r of None \<Rightarrow> [] | Some t \<Rightarrow> t);
              roomTyping = (if isTyping then set_add (username u) current
                            else set_delete (username u) current)
          in (s\<lparr> typingUsers := AList.update r roomTyping (typingUsers s) \<rparr>,
              [broadcastToRoom r (TypingUsers roomTyping r) (Some sid)]))"

subsection \<open>private_message\<close>

text \<open>The flag of \<open>PrivateMessage\<close> is the \<^verbatim>\<open>isSent\<close> field of the sender's copy.\<close>

definition private_message ::
  "env \<Rightarrow> socket_id \<Rightarrow> socket_id \<Rightarrow> string \<Rightarrow> server \<Rightarrow> server \<times> io_action list" where
  "private_message e sid to txt s =
     (case getUserInfo s sid of
        None \<Rightarrow> (s, [])
      | Some u \<Rightarrow>
          let messageData = \<lparr> pm_id = uuid e, pm_sender = username u, pm_senderId = sid,
                              pm_message = txt, pm_timestamp = now e \<rparr>
          in (s, [Emit (ToOthersIn to) (PrivateMessage messageData False),
                  Emit ToSender (PrivateMessage messageData True)]))"

subsection \<open>add_reaction\<close>

text \<open>
  \<^verbatim>\<open>indexOf\<close> followed by \<^verbatim>\<open>splice(userIndex, 1)\<close> removes the first occurrence;
  \<^verbatim>\<open>push\<close> appends.
\<close>

definition toggle :: "username \<Rightarrow> username list \<Rightarrow> username list" where
  "toggle name xs = (if name \<in> set xs then remove1 name xs else xs @ [name])"

definition react :: "string \<Rightarrow> username \<Rightarrow> chat_message \<Rightarrow> chat_message" where
  "react reaction name m =
     (let current = (case reactions m reaction of None \<Rightarrow> [] | Some xs \<Rightarrow> xs)
      in m\<lparr> reactions := (reactions m)(reaction \<mapsto> toggle name current) \<rparr>)"

definition add_reaction ::
  "socket_id \<Rightarrow> message_id \<Rightarrow> string \<Rightarrow> room_id option \<Rightarrow> server
     \<Rightarrow> js_error + server \<times> io_action list" where
  "add_reaction sid messageId reaction ropt s =
     (case getUserInfo s sid of
        None \<Rightarrow> Inr (s, [])
      | Some u \<Rightarrow>
          let r = room_or_default ropt in
          (case map_of (messages s) r of
             None \<Rightarrow> Inr (s, [])
           | Some roomMessages \<Rightarrow>
               (case find (\<lambda>m. mid m = messageId) roomMessages of
                  None \<Rightarrow> Inr (s, [])
                | Some m \<Rightarrow>
                    if reaction \<in> set object_prototype_keys then Inl TypeError
                    else
                      let m' = react reaction (username u) m;
                          roomMessages' =
                            update_first (\<lambda>m. mid m = messageId)
                              (react reaction (username u)) roomMessages
                      in Inr (s\<lparr> messages := AList.update r roomMessages' (messages s) \<rparr>,
                              [broadcastToRoom r (MessageUpdated m') None]))))"

subsection \<open>mark_as_read\<close>

definition mark_as_read ::
  "socket_id \<Rightarrow> message_id \<Rightarrow> room_id option \<Rightarrow> server \<Rightarrow> server \<times> io_action list" where
  "mark_as_read sid messageId ropt s =
     (case getUserInfo s sid of
        None \<Rightarrow> (s, [])
      | Some u \<Rightarrow>
          let r = room_or_default ropt;
              readers = (case map_of (readReceipts s) messageId of None \<Rightarrow> [] | Some x \<Rightarrow> x)
          in (s\<lparr> readReceipts := AList.update messageId (set_add sid readers) (readReceipts s) \<rparr>,
              [broadcastToRoom r (ReadReceipt messageId sid (username u)) None]))"

subsection \<open>join_room and create_room\<close>

definition join_room :: "socket_id \<Rightarrow> room_id \<Rightarrow> server \<Rightarrow> server \<times> io_action list" where
  "join_room sid roomId s =
     (case getUserInfo s sid of
        None \<Rightarrow> (s, [])
      | Some u \<Rightarrow>
          let u' = u\<lparr> currentRoom := roomId \<rparr>;
              s' = s\<lparr> users := AList.update sid u' (users s) \<rparr>
          in (s',
              (if currentRoom u \<noteq> [] then [SocketLeave (currentRoom u)] else []) @
              [SocketJoin roomId,
               Emit ToSender (MessageHistory roomId (slice_last 50 (room_log s' roomId))),
               broadcastToRoom roomId (UserJoinedRoom u' roomId) None]))"

definition create_room ::
  "env \<Rightarrow> socket_id \<Rightarrow> string \<Rightarrow> bool option \<Rightarrow> server \<Rightarrow> server \<times> io_action list" where
  "create_room e sid name priv s =
     (case getUserInfo s sid of
        None \<Rightarrow> (s, [])
      | Some u \<Rightarrow>
          let roomId = uuid e;
              rm = \<lparr> rid = roomId, rname = name, createdBy = Some (username u),
                     createdAt = now e,
                     isPrivate = Some (case priv of None \<Rightarrow> False | Some b \<Rightarrow> b) \<rparr>;
              rooms' = AList.update roomId rm (rooms s)
          in (s\<lparr> rooms := rooms',
                  messages := AList.update roomId [] (messages s),
                  typingUsers := AList.update roomId [] (typingUsers s),
                  users := AList.update sid (u\<lparr> currentRoom := roomId \<rparr>) (users s) \<rparr>,
              [Emit Everyone (RoomList (map snd rooms')),
               SocketJoin roomId,
               Emit ToSender (RoomCreated rm)]))"

subsection \<open>disconnect and update_status\<close>

definition disconnect :: "socket_id \<Rightarrow> server \<Rightarrow> server \<times> io_action list" where
  "disconnect sid s =
     (case getUserInfo s sid of
        None \<Rightarrow> (s, [])
      | Some u \<Rightarrow>
          let users' = AList.delete sid (users s)
          in (s\<lparr> typingUsers := map (\<lambda>(r, roomTyping). (r, set_delete (username u) roomTyping))
                                    (typingUsers s),
                  users := users' \<rparr>,
              [broadcastToRoom (currentRoom u) (UserLeft u (currentRoom u)) None,
               Emit Everyone (UserList (map snd users'))]))"

definition update_status :: "socket_id \<Rightarrow> string \<Rightarrow> server \<Rightarrow> server \<times> io_action list" where
  "update_status sid st s =
     (case getUserInfo s sid of
        None \<Rightarrow> (s, [])
      | Some u \<Rightarrow>
          (s\<lparr> users := AList.update sid (u\<lparr> status := st \<rparr>) (users s) \<rparr>,
           [Emit Everyone (UserStatusChanged sid (username u) st)]))"

subsection \<open>Dispatch\<close>

text \<open>
  One event from the connection \<open>sid\<close>, handled to completion. \<open>Inl\<close> is an exception
  that leaves the handler. Taking apart a payload that is \<^verbatim>\<open>undefined\<close> or \<^verbatim>\<open>null\<close> throws
  a \<^verbatim>\<open>TypeError\<close> before the first statement of the handler's body.
\<close>

fun handle :: "env \<Rightarrow> socket_id \<Rightarrow> event \<Rightarrow> server \<Rightarrow> js_error + server \<times> io_action list" where
  "handle e sid (UserJoin name av) s = Inr (user_join e sid name av s)"
| "handle e sid (SendMessage txt r) s = Inr (send_message e sid txt r s)"
| "handle e sid (Typing b r) s = Inr (typing sid b r s)"
| "handle e sid (PrivateMsg to txt) s = Inr (private_message e sid to txt s)"
| "handle e sid (AddReaction m k r) s = add_reaction sid m k r s"
| "handle e sid (MarkAsRead m r) s = Inr (mark_as_read sid m r s)"
| "handle e sid (JoinRoom r) s = Inr (join_room sid r s)"
| "handle e sid (CreateRoom name priv) s = Inr (create_room e sid name priv s)"
| "handle e sid (FileUploaded fd r) s = Inr (file_uploaded e sid fd r s)"
| "handle e sid Disconnect s = Inr (disconnect sid s)"
| "handle e sid (UpdateStatus st) s = Inr (update_status sid st s)"
| "handle e sid (NoPayload name) s = Inl TypeError"

text \<open>
  Events are handled one after the other. An exception that leaves a handler is not
  caught anywhere, so the run ends there.
\<close>

fun run :: "server \<Rightarrow> (env \<times> socket_id \<times> event) list \<Rightarrow> js_error + server" where
  "run s [] = Inr s"
| "run s ((e, sid, ev) # evs) =
     (case handle e sid ev s of Inl err \<Rightarrow> Inl err | Inr (s', out) \<Rightarrow> run s' evs)"

inductive reachable :: "server \<Rightarrow> bool" where
  start: "reachable (init_server t0)"
| step: "reachable s \<Longrightarrow> handle e sid ev s = Inr (s', out) \<Longrightarrow> reachable s'"


text \<open>The connections recorded as readers of a message id.\<close>

definition receipts_of :: "server \<Rightarrow> message_id \<Rightarrow> socket_id list" where
  "receipts_of s messageId =
     (case map_of (readReceipts s) messageId of None \<Rightarrow> [] | Some x \<Rightarrow> x)"

fun is_join :: "event \<Rightarrow> bool" where
  "is_join (UserJoin name av) = True"
| "is_join (NoPayload OnUserJoin) = True"
| "is_join ev = False"

fun has_payload :: "event \<Rightarrow> bool" where
  "has_payload (NoPayload name) = False"
| "has_payload ev = True"

section \<open>Example runs\<close>

definition default_room :: "timestamp \<Rightarrow> chat_room" where
  "default_room t0 =
     \<lparr> rid = DEFAULT_ROOM, rname = ''Global Chat'', createdBy = None, createdAt = t0,
       isPrivate = None \<rparr>"

definition alice :: user where
  "alice = \<lparr> uid = ''sockA'', username = ''alice'', avatar = None, joinedAt = ''t1'',
             currentRoom = DEFAULT_ROOM, status = ''online'' \<rparr>"

definition alice_joins :: "(env \<times> socket_id \<times> event) list" where
  "alice_joins = [(\<lparr>uuid = ''u1'', now = ''t1''\<rparr>, ''sockA'', UserJoin ''alice'' None)]"

definition alice_joined :: server where
  "alice_joined =
     \<lparr> users = [(''sockA'', alice)],
       rooms = [(DEFAULT_ROOM, default_room ''t0'')],
       messages = [(DEFAULT_ROOM, [])],
       typingUsers = [(DEFAULT_ROOM, [])],
       readReceipts = [] \<rparr>"

definition carol :: user where
  "carol = \<lparr> uid = ''sockC'', username = ''carol'', avatar = None, joinedAt = ''t2'',
             currentRoom = DEFAULT_ROOM, status = ''online'' \<rparr>"

definition typing_twice :: "(env \<times> socket_id \<times> event) list" where
  "typing_twice =
     [(\<lparr>uuid = ''u1'', now = ''t1''\<rparr>, ''sockA'', UserJoin ''alice'' None),
      (\<lparr>uuid = ''u2'', now = ''t2''\<rparr>, ''sockC'', UserJoin ''carol'' None),
      (\<lparr>uuid = ''u3'', now = ''t3''\<rparr>, ''sockA'', Typing True None),
      (\<lparr>uuid = ''u4'', now = ''t4''\<rparr>, ''sockC'', Typing True None),
      (\<lparr>uuid = ''devs'', now = ''t5''\<rparr>, ''sockA'', CreateRoom ''Developers'' None),
      (\<lparr>uuid = ''u6'', now = ''t6''\<rparr>, ''sockC'', Typing True (Some ''devs'')),
      (\<lparr>uuid = ''u7'', now = ''t7''\<rparr>, ''sockA'', Typing True (Some ''devs''))]"

definition two_rooms_typing :: server where
  "two_rooms_typing =
     \<lparr> users = [(''sockA'', alice\<lparr> currentRoom := ''devs'' \<rparr>), (''sockC'', carol)],
       rooms = [(DEFAULT_ROOM, default_room ''t0''),
                (''devs'',
                 \<lparr> rid = ''devs'', rname = ''Developers'', createdBy = Some ''alice'',
                   createdAt = ''t5'', isPrivate = Some False \<rparr>)],
       messages = [(DEFAULT_ROOM, []), (''devs'', [])],
       typingUsers = [(DEFAULT_ROOM, [''alice'', ''carol'']), (''devs'', [''carol'', ''alice''])],
       readReceipts = [] \<rparr>"

definition hi_message :: chat_message where
  "hi_message = text_message \<lparr>uuid = ''m1'', now = ''t2''\<rparr> ''sockA'' alice ''hi'' DEFAULT_ROOM"

definition alice_says_hi :: "(env \<times> socket_id \<times> event) list" where
  "alice_says_hi =
     [(\<lparr>uuid = ''u1'', now = ''t1''\<rparr>, ''sockA'', UserJoin ''alice'' None),
      (\<lparr>uuid = ''m1'', now = ''t2''\<rparr>, ''sockA'', SendMessage ''hi'' None)]"

definition alice_said_hi :: server where
  "alice_said_hi = alice_joined\<lparr> messages := [(DEFAULT_ROOM, [hi_message])] \<rparr>"

definition bob_on_sockA :: user where
  "bob_on_sockA =
     \<lparr> uid = ''sockA'', username = ''bob'', avatar = Some ''cat.png'', joinedAt = ''t2'',
       currentRoom = DEFAULT_ROOM, status = ''online'' \<rparr>"

section \<open>Appends to the log of a room\<close>

text \<open>
  The events that append to the log of the room \<open>r\<close>, the message each of them builds
  (the \<^verbatim>\<open>messageData\<close> of its handler), and the histories a handler sends to its caller.
\<close>

fun is_append_to :: "room_id \<Rightarrow> event \<Rightarrow> bool" where
  "is_append_to r (SendMessage txt ropt) = (room_or_default ropt = r)"
| "is_append_to r (FileUploaded fd ropt) = (room_or_default ropt = r)"
| "is_append_to r ev = False"

fun new_message :: "server \<Rightarrow> env \<times> socket_id \<times> event \<Rightarrow> chat_message option" where
  "new_message s (e, sid, SendMessage txt ropt) =
     map_option (\<lambda>u. text_message e sid u txt (room_or_default ropt)) (getUserInfo s sid)"
| "new_message s (e, sid, FileUploaded fd ropt) =
     map_option (\<lambda>u. file_message e sid u fd (room_or_default ropt)) (getUserInfo s sid)"
| "new_message s (e, sid, ev) = None"

definition appended :: "server \<Rightarrow> (env \<times> socket_id \<times> event) list \<Rightarrow> chat_message list" where
  "appended s evs = List.map_filter (new_message s) evs"

definition appends_to :: "server \<Rightarrow> room_id \<Rightarrow> (env \<times> socket_id \<times> event) list \<Rightarrow> bool" where
  "appends_to s r evs =
     list_all (\<lambda>(e, sid, ev). is_append_to r ev \<and> getUserInfo s sid \<noteq> None) evs"

fun history_sent :: "io_action list \<Rightarrow> (room_id \<times> chat_message list) list" where
  "history_sent [] = []"
| "history_sent (Emit ToSender (MessageHistory r ms) # as) = (r, ms) # history_sent as"
| "history_sent (a # as) = history_sent as"

section \<open>Long runs\<close>

definition many_messages :: "nat \<Rightarrow> (env \<times> socket_id \<times> event) list" where
  "many_messages n =
     map (\<lambda>i. (\<lparr>uuid = replicate (Suc i) CHR ''m'', now = ''t2''\<rparr>, ''sockA'',
                SendMessage ''hello'' None)) [0..<n]"

definition a_file :: file_data where
  "a_file = \<lparr> filename = ''1-a.png'', originalName = ''a.png'', size = 10,
              mimetype = ''image/png'', url = ''/uploads/1-a.png'' \<rparr>"

definition many_uploads :: "nat \<Rightarrow> (env \<times> socket_id \<times> event) list" where
  "many_uploads n =
     map (\<lambda>i. (\<lparr>uuid = replicate (Suc i) CHR ''f'', now = ''t2''\<rparr>, ''sockA'',
                FileUploaded a_file None)) [0..<n]"

definition log_after ::
  "server \<Rightarrow> (env \<times> socket_id \<times> event) list \<Rightarrow> room_id \<Rightarrow> chat_message list option" where
  "log_after s evs r = (case run s evs of Inl err \<Rightarrow> None | Inr s' \<Rightarrow> Some (room_log s' r))"

section \<open>References to rooms\<close>

text \<open>
  \<open>room_exists\<close> is \<^verbatim>\<open>rooms.has(r)\<close>. A state has sound room references when the current
  room of every registered connection and the room of every stored message exist.
  \<open>names_existing_room\<close> holds of an event that names no room, or names one that exists;
  \<open>refs_inv\<close> is the invariant that is proved by induction.
\<close>

definition room_exists :: "server \<Rightarrow> room_id \<Rightarrow> bool" where
  "room_exists s r = (map_of (rooms s) r \<noteq> None)"

definition room_refs_ok :: "server \<Rightarrow> bool" where
  "room_refs_ok s =
     (list_all (\<lambda>(sid, u). room_exists s (currentRoom u)) (users s)
      \<and> list_all (\<lambda>(r, log). list_all (\<lambda>m. room_exists s (room m)) log) (messages s))"

fun names_existing_room :: "server \<Rightarrow> event \<Rightarrow> bool" where
  "names_existing_room s (JoinRoom r) = room_exists s r"
| "names_existing_room s (SendMessage body ropt) = room_exists s (room_or_default ropt)"
| "names_existing_room s (FileUploaded fd ropt) = room_exists s (room_or_default ropt)"
| "names_existing_room s ev = True"

inductive reachable_naming_rooms :: "server \<Rightarrow> bool" where
  start_naming: "reachable_naming_rooms (init_server t0)"
| step_naming: "reachable_naming_rooms s \<Longrightarrow> names_existing_room s ev
     \<Longrightarrow> handle e sid ev s = Inr (s', out) \<Longrightarrow> reachable_naming_rooms s'"

definition alice_wanders :: "(env \<times> socket_id \<times> event) list" where
  "alice_wanders =
     [(\<lparr>uuid = ''u1'', now = ''t1''\<rparr>, ''sockA'', UserJoin ''alice'' None),
      (\<lparr>uuid = ''u2'', now = ''t2''\<rparr>, ''sockA'', JoinRoom ''nowhere''),
      (\<lparr>uuid = ''m1'', now = ''t3''\<rparr>, ''sockA'', SendMessage ''hi'' (Some ''nowhere''))]"

definition lost_message :: chat_message where
  "lost_message =
     text_message \<lparr>uuid = ''m1'', now = ''t3''\<rparr> ''sockA''
       (alice\<lparr> currentRoom := ''nowhere'' \<rparr>) ''hi'' ''nowhere''"

definition alice_in_nowhere :: server where
  "alice_in_nowhere =
     alice_joined\<lparr> users := [(''sockA'', alice\<lparr> currentRoom := ''nowhere'' \<rparr>)],
                   messages := [(DEFAULT_ROOM, []), (''nowhere'', [lost_message])] \<rparr>"

definition refs_inv :: "server \<Rightarrow> bool" where
  "refs_inv s \<longleftrightarrow> room_exists s DEFAULT_ROOM
     \<and> (\<forall>sid u. (sid, u) \<in> set (users s) \<longrightarrow> room_exists s (currentRoom u))
     \<and> (\<forall>r l m. (r, l) \<in> set (messages s) \<longrightarrow> m \<in> set l \<longrightarrow> room_exists s (room m))"

section \<open>Reactions\<close>

text \<open>
  The reactors of a kind are the usernames in the array under that key, none when the key
  is absent. \<open>all_stored P\<close> says that every stored message satisfies \<open>P\<close>.
\<close>

definition reactors :: "chat_message \<Rightarrow> string \<Rightarrow> username list" where
  "reactors m k = (case reactions m k of None \<Rightarrow> [] | Some xs \<Rightarrow> xs)"

definition all_stored :: "(chat_message \<Rightarrow> bool) \<Rightarrow> server \<Rightarrow> bool" where
  "all_stored P s \<longleftrightarrow> (\<forall>r l m. (r, l) \<in> set (messages s) \<longrightarrow> m \<in> set l \<longrightarrow> P m)"

definition reactors_distinct :: "chat_message \<Rightarrow> bool" where
  "reactors_distinct m \<longleftrightarrow> (\<forall>k. distinct (reactors m k))"

section \<open>Properties\<close>

lemmas handler_defs = user_join_def send_message_def file_uploaded_def typing_def
  private_message_def add_reaction_def mark_as_read_def join_room_def create_room_def
  disconnect_def update_status_def

lemmas example_defs = init_server_def default_room_def alice_def carol_def DEFAULT_ROOM_def
  getUserInfo_def room_or_default_def room_log_def broadcastToRoom_def Let_def

subsection \<open>The example states are states of the server\<close>

lemma run_alice_joins: "run (init_server ''t0'') alice_joins = Inr alice_joined"
  by (simp add: alice_joins_def alice_joined_def user_join_def example_defs)

lemma run_typing_twice: "run (init_server ''t0'') typing_twice = Inr two_rooms_typing"
  by (simp add: typing_twice_def two_rooms_typing_def handler_defs example_defs set_add_def)

subsection \<open>Events before a join\<close>

text \<open>
  An event with a payload, other than the join, from a connection with no registered
  identity changes nothing: the handler returns the stores as they were and emits nothing
  (and neither joins nor leaves a transport room).
\<close>

lemma unregistered_payload_noop:
  assumes "getUserInfo s sid = None" and "\<not> is_join ev" and "has_payload ev"
  shows "handle e sid ev s = Inr (s, [])"
  using assms by (cases ev) (simp_all add: handler_defs)

lemma unregistered_payload_noop_example:
  "handle \<lparr>uuid = ''m1'', now = ''t1''\<rparr> ''sockA'' (SendMessage ''hi'' None) (init_server ''t0'')
     = Inr (init_server ''t0'', [])"
  by (rule unregistered_payload_noop) (simp_all add: getUserInfo_def init_server_def)

text \<open>Without a payload the handler throws, whoever sends the event.\<close>

lemma missing_payload_throws: "handle e sid (NoPayload name) s = Inl TypeError"
  by simp

text \<open>
  C7, at the failing input. The check \<^verbatim>\<open>if (!user) return\<close> is the first statement of
  the body of a handler, after the parameter list has taken the payload apart. On the
  server just started nobody is registered; a send_message that the connection sockA
  emits with no payload is not a silent no-op: the handler throws.
\<close>

theorem unregistered_missing_payload_throws:
  "getUserInfo (init_server ''t0'') ''sockA'' = None
   \<and> \<not> is_join (NoPayload OnSendMessage)
   \<and> handle \<lparr>uuid = ''u1'', now = ''t1''\<rparr> ''sockA'' (NoPayload OnSendMessage)
        (init_server ''t0'') = Inl TypeError"
  by (simp add: getUserInfo_def init_server_def)

subsection \<open>Disconnect and the typing sets\<close>

lemma set_delete_filter: "set_delete x xs = filter (\<lambda>y. y \<noteq> x) xs"
  by (induction xs) (simp_all add: set_delete_def)

text \<open>
  C8. When a registered user disconnects, the typing sets stay with their rooms, in the
  same order, and each of them is the set it was without the user's username: the other
  usernames stay, in their order. So the username is in no typing set afterwards, in
  however many rooms it was typing.
\<close>

theorem disconnect_clears_typing:
  assumes "getUserInfo s sid = Some u" and "handle e sid Disconnect s = Inr (s', out)"
  shows "list_all2 (\<lambda>(r', t') (r, t). r' = r \<and> t' = filter (\<lambda>x. x \<noteq> username u) t)
           (typingUsers s') (typingUsers s)
         \<and> (\<forall>r t. (r, t) \<in> set (typingUsers s') \<longrightarrow> username u \<notin> set t)"
proof -
  from assms have t: "typingUsers s' =
      map (\<lambda>(r, t). (r, filter (\<lambda>x. x \<noteq> username u) t)) (typingUsers s)"
    by (auto simp: disconnect_def Let_def set_delete_filter)
  have "list_all2 (\<lambda>(r', t') (r, t). r' = r \<and> t' = filter (\<lambda>x. x \<noteq> username u) t)
           (map (\<lambda>(r, t). (r, filter (\<lambda>x. x \<noteq> username u) t)) (typingUsers s))
           (typingUsers s)"
    by (simp add: list_all2_map1 list_all2_same case_prod_unfold)
  moreover have "username u \<notin> set t'"
    if "(r', t') \<in> set (map (\<lambda>(r, t). (r, filter (\<lambda>x. x \<noteq> username u) t)) (typingUsers s))"
    for r' t'
    using that by auto
  ultimately show ?thesis unfolding t by blast
qed

theorem disconnect_clears_typing_witness:
  "getUserInfo two_rooms_typing ''sockA'' = Some (alice\<lparr> currentRoom := ''devs'' \<rparr>)
   \<and> typingUsers two_rooms_typing
       = [(DEFAULT_ROOM, [''alice'', ''carol'']), (''devs'', [''carol'', ''alice''])]
   \<and> typingUsers (fst (disconnect ''sockA'' two_rooms_typing))
       = [(DEFAULT_ROOM, [''carol'']), (''devs'', [''carol''])]"
proof -
  have reg: "getUserInfo two_rooms_typing ''sockA'' = Some (alice\<lparr> currentRoom := ''devs'' \<rparr>)"
    by (simp add: getUserInfo_def two_rooms_typing_def)
  have h: "handle \<lparr>uuid = ''u8'', now = ''t8''\<rparr> ''sockA'' Disconnect two_rooms_typing =
        Inr (fst (disconnect ''sockA'' two_rooms_typing),
             snd (disconnect ''sockA'' two_rooms_typing))"
    by simp
  have before: "typingUsers two_rooms_typing
       = [(DEFAULT_ROOM, [''alice'', ''carol'']), (''devs'', [''carol'', ''alice''])]"
    by (simp add: two_rooms_typing_def)
  from disconnect_clears_typing [OF reg h]
  have "list_all2 (\<lambda>(r', t') (r, t). r' = r \<and> t' = filter (\<lambda>x. x \<noteq> ''alice'') t)
           (typingUsers (fst (disconnect ''sockA'' two_rooms_typing)))
           [(DEFAULT_ROOM, [''alice'', ''carol'']), (''devs'', [''carol'', ''alice''])]"
    unfolding before by (simp add: alice_def)
  then have "typingUsers (fst (disconnect ''sockA'' two_rooms_typing))
       = [(DEFAULT_ROOM, [''carol'']), (''devs'', [''carol''])]"
    by (auto simp: list_all2_Cons2)
  with reg before show ?thesis by simp
qed

subsection \<open>Reactions to a message that is not there\<close>

text \<open>
  C9. An add_reaction of a registered user that names a room without a message log, or a
  message id that no message of the room's log has, changes nothing and emits nothing.
\<close>

theorem add_reaction_unknown_noop:
  assumes "getUserInfo s sid = Some u"
    and "map_of (messages s) (room_or_default r) = None
         \<or> messageId \<notin> mid ` set (room_log s (room_or_default r))"
  shows "handle e sid (AddReaction messageId k r) s = Inr (s, [])"
proof -
  have "find (\<lambda>m. mid m = messageId) l = None"
    if "map_of (messages s) (room_or_default r) = Some l" for l
  proof -
    from that assms(2) have "messageId \<notin> mid ` set l" by (simp add: room_log_def)
    then show ?thesis by (auto simp: find_None_iff)
  qed
  then show ?thesis
    using assms(1) by (simp add: add_reaction_def Let_def split: option.splits)
qed

theorem add_reaction_unknown_noop_witness:
  "getUserInfo alice_joined ''sockA'' = Some alice
   \<and> map_of (messages alice_joined) ''nowhere'' = None
   \<and> ''m9'' \<notin> mid ` set (room_log alice_joined DEFAULT_ROOM)
   \<and> handle \<lparr>uuid = ''u2'', now = ''t2''\<rparr> ''sockA''
        (AddReaction ''m9'' ''like'' (Some ''nowhere'')) alice_joined = Inr (alice_joined, [])
   \<and> handle \<lparr>uuid = ''u2'', now = ''t2''\<rparr> ''sockA''
        (AddReaction ''m9'' ''like'' None) alice_joined = Inr (alice_joined, [])"
proof -
  have reg: "getUserInfo alice_joined ''sockA'' = Some alice"
    by (simp add: getUserInfo_def alice_joined_def)
  have no_log: "map_of (messages alice_joined) (room_or_default (Some ''nowhere'')) = None"
    by (simp add: alice_joined_def example_defs)
  have no_msg: "''m9'' \<notin> mid ` set (room_log alice_joined (room_or_default None))"
    by (simp add: alice_joined_def example_defs)
  note a = add_reaction_unknown_noop [OF reg disjI1, OF no_log]
  note b = add_reaction_unknown_noop [OF reg disjI2, OF no_msg]
  from a b reg no_log no_msg show ?thesis
    by (simp add: room_or_default_def)
qed

subsection \<open>Read receipts are broadcast without a lookup of the message\<close>

text \<open>
  C10. A mark_as_read of a registered user records the connection in the receipts of the
  message id and broadcasts one read_receipt with the message id, the connection id and
  the username to the named room (the default room when none is named). No store of
  messages is consulted, so this also happens for an id that no message has.
\<close>

theorem mark_as_read_broadcasts:
  assumes "getUserInfo s sid = Some u"
  shows "\<exists>s'. handle e sid (MarkAsRead messageId r) s =
            Inr (s', [Emit (ToRoom (room_or_default r))
                        (ReadReceipt messageId sid (username u))])
          \<and> map_of (readReceipts s') messageId \<noteq> None
          \<and> sid \<in> set (the (map_of (readReceipts s') messageId))"
  using assms
  by (simp add: mark_as_read_def broadcastToRoom_def Let_def update_conv' set_add_def
      split: option.splits)

theorem mark_as_read_broadcasts_witness:
  "getUserInfo alice_joined ''sockA'' = Some alice
   \<and> ''ghost'' \<notin> mid ` set (concat (map snd (messages alice_joined)))
   \<and> snd (mark_as_read ''sockA'' ''ghost'' None alice_joined)
       = [Emit (ToRoom DEFAULT_ROOM) (ReadReceipt ''ghost'' ''sockA'' ''alice'')]"
proof -
  have reg: "getUserInfo alice_joined ''sockA'' = Some alice"
    by (simp add: getUserInfo_def alice_joined_def)
  from mark_as_read_broadcasts [OF reg, of "\<lparr>uuid = ''u2'', now = ''t2''\<rparr>" "''ghost''" None]
  have "snd (mark_as_read ''sockA'' ''ghost'' None alice_joined)
       = [Emit (ToRoom (room_or_default None)) (ReadReceipt ''ghost'' ''sockA'' (username alice))]"
    by auto
  with reg show ?thesis
    by (simp add: alice_joined_def alice_def room_or_default_def)
qed

lemma run_alice_says_hi: "run (init_server ''t0'') alice_says_hi = Inr alice_said_hi"
  by (simp add: alice_says_hi_def alice_said_hi_def alice_joined_def hi_message_def
      user_join_def send_message_def example_defs)

subsection \<open>What mark_as_read records\<close>

lemma set_add_idem: "set_add x (set_add x xs) = set_add x xs"
  by (simp add: set_add_def)

lemma set_set_add: "set (set_add x xs) = insert x (set xs)"
  by (auto simp: set_add_def)

text \<open>
  C3, as the claim states it, fails: mark_as_read leaves the read-by field of the stored
  message as it was. Alice has sent the message m1, whose read-by array is empty; after
  her mark_as_read of m1 the log of the room still holds the same message, and only the
  receipts store has changed.
\<close>

theorem mark_as_read_readBy_counterexample:
  "getUserInfo alice_said_hi ''sockA'' = Some alice
   \<and> username alice = ''alice''
   \<and> room_log alice_said_hi DEFAULT_ROOM = [hi_message]
   \<and> mid hi_message = ''m1''
   \<and> readBy hi_message = Some []
   \<and> handle \<lparr>uuid = ''u3'', now = ''t3''\<rparr> ''sockA'' (MarkAsRead ''m1'' None) alice_said_hi
       = Inr (alice_said_hi\<lparr> readReceipts := [(''m1'', [''sockA''])] \<rparr>,
              [Emit (ToRoom DEFAULT_ROOM) (ReadReceipt ''m1'' ''sockA'' ''alice'')])
   \<and> room_log (alice_said_hi\<lparr> readReceipts := [(''m1'', [''sockA''])] \<rparr>) DEFAULT_ROOM
       = [hi_message]"
  by (simp add: alice_said_hi_def alice_joined_def hi_message_def text_message_def
      mark_as_read_def set_add_def example_defs)

text \<open>
  C3, amended. For a registered user and any message id, mark_as_read adds the id of the
  user's connection to the receipts recorded for that message id if it is absent, and a
  second identical mark_as_read changes nothing: it returns the same stores and the same
  broadcast.
\<close>

theorem mark_as_read_idempotent:
  assumes "getUserInfo s sid = Some u"
  shows "\<exists>s1 out. handle e sid (MarkAsRead messageId r) s = Inr (s1, out)
          \<and> receipts_of s1 messageId =
              (if sid \<in> set (receipts_of s messageId) then receipts_of s messageId
               else receipts_of s messageId @ [sid])
          \<and> handle e' sid (MarkAsRead messageId r) s1 = Inr (s1, out)"
  using assms
  by (auto simp: mark_as_read_def Let_def receipts_of_def getUserInfo_def update_conv'
      set_add_idem set_add_def split: option.splits)

theorem mark_as_read_idempotent_witness:
  "getUserInfo alice_said_hi ''sockA'' = Some alice
   \<and> receipts_of alice_said_hi ''m1'' = []
   \<and> receipts_of (fst (mark_as_read ''sockA'' ''m1'' None alice_said_hi)) ''m1'' = [''sockA'']
   \<and> mark_as_read ''sockA'' ''m1'' None (fst (mark_as_read ''sockA'' ''m1'' None alice_said_hi))
       = mark_as_read ''sockA'' ''m1'' None alice_said_hi"
proof -
  have reg: "getUserInfo alice_said_hi ''sockA'' = Some alice"
    by (simp add: getUserInfo_def alice_said_hi_def alice_joined_def)
  from mark_as_read_idempotent [OF reg, of "\<lparr>uuid = ''u3'', now = ''t3''\<rparr>" "''m1''" None
      "\<lparr>uuid = ''u4'', now = ''t4''\<rparr>"]
  have "mark_as_read ''sockA'' ''m1'' None (fst (mark_as_read ''sockA'' ''m1'' None alice_said_hi))
       = mark_as_read ''sockA'' ''m1'' None alice_said_hi"
    by auto
  with reg show ?thesis
    by (simp add: receipts_of_def alice_said_hi_def alice_joined_def mark_as_read_def
        set_add_def example_defs)
qed

subsection \<open>A second join on the same connection\<close>

text \<open>
  C4, as the claim states it, fails: a user_join on a connection that already has an
  identity is not rejected. Alice is registered on the connection sockA; a user_join of
  bob on sockA returns normally, with bob bound to sockA and all five emits made.
\<close>

theorem rejoin_counterexample:
  "getUserInfo alice_joined ''sockA'' = Some alice
   \<and> handle \<lparr>uuid = ''u2'', now = ''t2''\<rparr> ''sockA'' (UserJoin ''bob'' (Some ''cat.png''))
        alice_joined
       = Inr (alice_joined\<lparr> users := [(''sockA'', bob_on_sockA)] \<rparr>,
              [SocketJoin DEFAULT_ROOM,
               Emit Everyone (UserList [bob_on_sockA]),
               Emit (ToRoom DEFAULT_ROOM) (UserJoined bob_on_sockA DEFAULT_ROOM),
               Emit ToSender (RoomList [default_room ''t0'']),
               Emit ToSender (MessageHistory DEFAULT_ROOM [])])"
  by (simp add: alice_joined_def bob_on_sockA_def user_join_def slice_last_def example_defs)

text \<open>
  C4, amended. A user_join on a connection id that is already in the user registry
  succeeds and overwrites the entry of that connection with a fresh identity (the new
  name and avatar, the time of this join, the default room, online); the entry keeps its
  place in the registry and the other connections keep their identities.
\<close>

theorem rejoin_overwrites:
  assumes "getUserInfo s sid = Some u"
  shows "\<exists>s' out. handle e sid (UserJoin name av) s = Inr (s', out)
          \<and> getUserInfo s' sid =
               Some \<lparr> uid = sid, username = name, avatar = av, joinedAt = now e,
                      currentRoom = DEFAULT_ROOM, status = ''online'' \<rparr>
          \<and> map fst (users s') = map fst (users s)
          \<and> (\<forall>x. x \<noteq> sid \<longrightarrow> getUserInfo s' x = getUserInfo s x)"
proof -
  from assms have "sid \<in> set (map fst (users s))"
    by (metis getUserInfo_def map_of_eq_None_iff option.distinct(1) set_map)
  then show ?thesis
    by (simp add: user_join_def Let_def getUserInfo_def update_conv' update_keys)
qed

theorem rejoin_overwrites_witness:
  "getUserInfo alice_joined ''sockA'' = Some alice
   \<and> getUserInfo (fst (user_join \<lparr>uuid = ''u2'', now = ''t2''\<rparr> ''sockA'' ''bob''
        (Some ''cat.png'') alice_joined)) ''sockA'' = Some bob_on_sockA"
proof -
  have reg: "getUserInfo alice_joined ''sockA'' = Some alice"
    by (simp add: getUserInfo_def alice_joined_def)
  from rejoin_overwrites [OF reg, of "\<lparr>uuid = ''u2'', now = ''t2''\<rparr>" "''bob''" "Some ''cat.png''"]
  have "getUserInfo (fst (user_join \<lparr>uuid = ''u2'', now = ''t2''\<rparr> ''sockA'' ''bob''
        (Some ''cat.png'') alice_joined)) ''sockA'' =
     Some \<lparr> uid = ''sockA'', username = ''bob'', avatar = Some ''cat.png'', joinedAt = ''t2'',
            currentRoom = DEFAULT_ROOM, status = ''online'' \<rparr>"
    by auto
  with reg show ?thesis by (simp add: bob_on_sockA_def)
qed

subsection \<open>A run of appends to one room\<close>

lemma slice_last_suffix:
  assumes "ys = zs @ xs" and "zs = [] \<or> n \<le> length xs"
  shows "slice_last n xs = slice_last n ys"
proof (cases "zs = []")
  case True
  with assms show ?thesis by simp
next
  case False
  with assms have "n \<le> length xs" by simp
  with assms(1) False show ?thesis by (auto simp: slice_last_def)
qed

lemma new_message_users: "users s' = users s \<Longrightarrow> new_message s' x = new_message s x"
  by (cases "(s, x)" rule: new_message.cases) (simp_all add: getUserInfo_def)

lemma appended_users: "users s' = users s \<Longrightarrow> appended s' evs = appended s evs"
proof -
  assume "users s' = users s"
  then have "new_message s' = new_message s"
    by (intro ext new_message_users)
  then show ?thesis by (simp add: appended_def)
qed

lemma appended_Cons:
  "new_message s x = Some m \<Longrightarrow> appended s (x # evs) = m # appended s evs"
  by (simp add: appended_def map_filter_simps)

lemma room_log_update:
  "room_log (s\<lparr> messages := AList.update r l (messages s) \<rparr>) r' =
     (if r' = r then l else room_log s r')"
  by (simp add: room_log_def update_conv')

text \<open>One append: the new message, and the log with it at the end, less its head when
  a text message made it longer than 100.\<close>

lemma append_step:
  assumes "is_append_to r ev" and "getUserInfo s sid \<noteq> None"
  shows "\<exists>s' out m. handle e sid ev s = Inr (s', out) \<and> new_message s (e, sid, ev) = Some m
           \<and> users s' = users s
           \<and> (room_log s' r = room_log s r @ [m]
               \<or> (room_log s' r = tl (room_log s r @ [m]) \<and> 100 \<le> length (room_log s' r)))"
proof (cases ev)
  case (SendMessage body ropt)
  with assms show ?thesis
    by (auto simp: send_message_def Let_def room_log_update)
next
  case (FileUploaded fd ropt)
  with assms show ?thesis
    by (auto simp: file_uploaded_def Let_def room_log_update)
qed (insert assms, simp_all)

lemma run_appends:
  assumes "appends_to s r evs"
  shows "\<exists>s' zs. run s evs = Inr s' \<and> users s' = users s
           \<and> length (appended s evs) = length evs
           \<and> room_log s r @ appended s evs = zs @ room_log s' r
           \<and> (zs = [] \<or> 100 \<le> length (room_log s' r))"
  using assms
proof (induction evs arbitrary: s)
  case Nil
  then show ?case by (simp add: appended_def map_filter_simps)
next
  case (Cons x evs)
  obtain e sid ev where x: "x = (e, sid, ev)" by (cases x) auto
  from Cons.prems x have app: "is_append_to r ev" and reg: "getUserInfo s sid \<noteq> None"
    and rest: "appends_to s r evs"
    by (simp_all add: appends_to_def)
  from append_step [OF app reg, of e] obtain s1 out m where
    h: "handle e sid ev s = Inr (s1, out)" and m: "new_message s (e, sid, ev) = Some m"
    and u: "users s1 = users s"
    and l: "room_log s1 r = room_log s r @ [m]
             \<or> (room_log s1 r = tl (room_log s r @ [m]) \<and> 100 \<le> length (room_log s1 r))"
    by blast
  from rest u have "appends_to s1 r evs"
    by (simp add: appends_to_def getUserInfo_def)
  from Cons.IH [OF this] obtain s' zs where
    r: "run s1 evs = Inr s'" and u': "users s' = users s1"
    and len: "length (appended s1 evs) = length evs"
    and eq: "room_log s1 r @ appended s1 evs = zs @ room_log s' r"
    and cap: "zs = [] \<or> 100 \<le> length (room_log s' r)"
    by blast
  have a1: "appended s1 evs = appended s evs" using u by (rule appended_users)
  have a2: "appended s x_evs = m # appended s evs" if "x_evs = x # evs" for x_evs
    using that m x by (simp add: appended_Cons)
  have run: "run s (x # evs) = Inr s'" using h r x by simp
  from l show ?case
  proof
    assume "room_log s1 r = room_log s r @ [m]"
    with eq a1 have "room_log s r @ appended s (x # evs) = zs @ room_log s' r"
      by (simp add: a2)
    with run u u' len a1 cap show ?thesis
      by (auto simp: a2)
  next
    assume t: "room_log s1 r = tl (room_log s r @ [m]) \<and> 100 \<le> length (room_log s1 r)"
    then have "room_log s r @ [m] = hd (room_log s r @ [m]) # room_log s1 r"
      by simp
    then have "room_log s r @ appended s (x # evs)
                 = (hd (room_log s r @ [m]) # zs) @ room_log s' r"
      using eq a1 by (simp add: a2) (metis append_Cons append_assoc append_Nil)
    moreover have "100 \<le> length (room_log s' r)"
    proof -
      from eq have "length (room_log s1 r) \<le> length zs + length (room_log s' r)"
        by (metis length_append le_add1)
      with cap t show ?thesis by auto
    qed
    ultimately show ?thesis using run u u' len a1
      by (auto simp: a2)
  qed
qed

subsection \<open>The history sent on a join\<close>

text \<open>
  C6. Let the log of the room \<open>r\<close> be empty (or absent), and let \<open>N\<close> events, each a
  send_message or a file_uploaded of a registered connection into \<open>r\<close>, be handled. The
  run completes and has appended \<open>N\<close> messages. The message_history then sent to a
  registered connection that joins \<open>r\<close> by join_room, and for the default room to any
  connection that sends user_join, is one history for \<open>r\<close>: all \<open>N\<close> messages in the order
  of the appends when \<open>N \<le> 50\<close>, the last 50 of them in that order otherwise. With
  \<open>N = 0\<close> this is the empty history of a room without messages.
\<close>

theorem history_is_last_50:
  assumes "room_log s r = []" and "appends_to s r evs" and "getUserInfo s sid \<noteq> None"
  shows "\<exists>s'. run s evs = Inr s' \<and> length (appended s evs) = length evs
          \<and> (\<exists>s1 out. handle e sid (JoinRoom r) s' = Inr (s1, out)
                \<and> history_sent out =
                    [(r, if length evs \<le> 50 then appended s evs
                         else drop (length evs - 50) (appended s evs))])
          \<and> (r = DEFAULT_ROOM \<longrightarrow>
               (\<exists>s2 out. handle e' sid' (UserJoin name av) s' = Inr (s2, out)
                \<and> history_sent out =
                    [(r, if length evs \<le> 50 then appended s evs
                         else drop (length evs - 50) (appended s evs))]))"
proof -
  from run_appends [OF assms(2)] obtain s' zs where
    r: "run s evs = Inr s'" and u: "users s' = users s"
    and len: "length (appended s evs) = length evs"
    and eq: "room_log s r @ appended s evs = zs @ room_log s' r"
    and cap: "zs = [] \<or> 100 \<le> length (room_log s' r)"
    by blast
  from cap have "zs = [] \<or> 50 \<le> length (room_log s' r)" by auto
  with eq assms(1) have "slice_last 50 (room_log s' r) = slice_last 50 (appended s evs)"
    by (intro slice_last_suffix [of _ zs]) simp_all
  then have hist: "slice_last 50 (room_log s' r) =
      (if length evs \<le> 50 then appended s evs else drop (length evs - 50) (appended s evs))"
    by (simp add: slice_last_def len)
  from assms(3) u obtain v where v: "getUserInfo s' sid = Some v"
    by (auto simp: getUserInfo_def)
  have jr: "\<exists>s1 out. handle e sid (JoinRoom r) s' = Inr (s1, out)
                \<and> history_sent out = [(r, slice_last 50 (room_log s' r))]"
    using v by (simp add: join_room_def Let_def broadcastToRoom_def room_log_def)
  have uj: "\<exists>s2 out. handle e' sid' (UserJoin name av) s' = Inr (s2, out)
                \<and> history_sent out = [(DEFAULT_ROOM, slice_last 50 (room_log s' DEFAULT_ROOM))]"
    by (simp add: user_join_def Let_def broadcastToRoom_def room_log_def)
  from r len jr uj show ?thesis
    unfolding hist [symmetric] by blast
qed


lemma run_append:
  "run s (xs @ ys) = (case run s xs of Inl err \<Rightarrow> Inl err | Inr s' \<Rightarrow> run s' ys)"
  by (induction xs arbitrary: s) (auto split: sum.splits)

lemma appends_to_many_messages: "appends_to alice_joined DEFAULT_ROOM (many_messages n)"
  by (simp add: appends_to_def many_messages_def list_all_iff room_or_default_def
      getUserInfo_def alice_joined_def)

theorem history_is_last_50_witness:
  "room_log alice_joined DEFAULT_ROOM = []
   \<and> appends_to alice_joined DEFAULT_ROOM (many_messages 60)
   \<and> getUserInfo alice_joined ''sockA'' \<noteq> None
   \<and> (\<exists>s'. run alice_joined (many_messages 60) = Inr s'
         \<and> (\<exists>s1 out. handle \<lparr>uuid = ''u9'', now = ''t9''\<rparr> ''sockA'' (JoinRoom DEFAULT_ROOM) s'
                         = Inr (s1, out)
               \<and> history_sent out =
                    [(DEFAULT_ROOM, drop 10 (appended alice_joined (many_messages 60)))]
               \<and> length (drop 10 (appended alice_joined (many_messages 60))) = 50))"
proof -
  have a: "room_log alice_joined DEFAULT_ROOM = []"
    by (simp add: room_log_def alice_joined_def)
  have b: "appends_to alice_joined DEFAULT_ROOM (many_messages 60)"
    by (rule appends_to_many_messages)
  have c: "getUserInfo alice_joined ''sockA'' \<noteq> None"
    by (simp add: getUserInfo_def alice_joined_def)
  have n: "length (many_messages 60) = 60"
    by (simp add: many_messages_def)
  from history_is_last_50 [OF a b c, of "\<lparr>uuid = ''u9'', now = ''t9''\<rparr>"
      "\<lparr>uuid = ''u9'', now = ''t9''\<rparr>" "''sockB''" "''bob''" None]
  obtain s' s1 out where "run alice_joined (many_messages 60) = Inr s'"
    and "length (appended alice_joined (many_messages 60)) = 60"
    and "handle \<lparr>uuid = ''u9'', now = ''t9''\<rparr> ''sockA'' (JoinRoom DEFAULT_ROOM) s' = Inr (s1, out)"
    and "history_sent out = [(DEFAULT_ROOM, drop 10 (appended alice_joined (many_messages 60)))]"
    unfolding n by auto
  with a b c show ?thesis by simp
qed

subsection \<open>The capacity of a log\<close>

text \<open>The text path: a log within the capacity stays within it.\<close>

lemma send_message_within_capacity:
  assumes "length (room_log s r) \<le> 100"
  shows "length (room_log (fst (send_message e sid body ropt s)) r) \<le> 100"
  using assms
  by (auto simp: send_message_def Let_def room_log_update split: option.splits)

lemma run_uploads:
  assumes "getUserInfo s sid \<noteq> None"
  shows "\<exists>s'. run s (map (\<lambda>e. (e, sid, FileUploaded fd ropt)) es) = Inr s'
           \<and> length (room_log s' (room_or_default ropt))
               = length (room_log s (room_or_default ropt)) + length es"
  using assms
proof (induction es arbitrary: s)
  case Nil
  then show ?case by simp
next
  case (Cons e es)
  let ?s1 = "fst (file_uploaded e sid fd ropt s)"
  from Cons.prems have u: "users ?s1 = users s"
    and l: "length (room_log ?s1 (room_or_default ropt))
              = Suc (length (room_log s (room_or_default ropt)))"
    by (auto simp: file_uploaded_def Let_def room_log_update)
  from u Cons.prems have "getUserInfo ?s1 sid \<noteq> None"
    by (simp add: getUserInfo_def)
  from Cons.IH [OF this] l show ?case
    by (auto simp: case_prod_unfold)
qed

text \<open>
  C1, at the failing input. The log of a room is cut to 100 messages by send_message
  only; file_uploaded appends without the check. From the start of the process, alice
  joins and uploads 101 files to the default room: the log of the default room then holds
  101 messages.
\<close>

theorem file_uploads_exceed_capacity:
  "map_option length
     (log_after (init_server ''t0'') (alice_joins @ many_uploads 101) DEFAULT_ROOM) = Some 101"
proof -
  have reg: "getUserInfo alice_joined ''sockA'' \<noteq> None"
    by (simp add: getUserInfo_def alice_joined_def)
  have m: "many_uploads 101 =
      map (\<lambda>e. (e, ''sockA'', FileUploaded a_file None))
        (map (\<lambda>i. \<lparr>uuid = replicate (Suc i) CHR ''f'', now = ''t2''\<rparr>) [0..<101])"
    by (simp add: many_uploads_def)
  from run_uploads [OF reg, of a_file None
      "map (\<lambda>i. \<lparr>uuid = replicate (Suc i) CHR ''f'', now = ''t2''\<rparr>) [0..<101]"]
  obtain s' where "run alice_joined (many_uploads 101) = Inr s'"
    and "length (room_log s' DEFAULT_ROOM) = length (room_log alice_joined DEFAULT_ROOM) + 101"
    unfolding m [symmetric] by (auto simp: room_or_default_def)
  moreover have "room_log alice_joined DEFAULT_ROOM = []"
    by (simp add: room_log_def alice_joined_def)
  ultimately show ?thesis
    by (simp add: log_after_def run_append run_alice_joins)
qed

subsection \<open>Every room that is referred to exists\<close>

lemma set_update_subset: "set (AList.update k v al) \<subseteq> insert (k, v) (set al)"
  by (induction al) auto

lemma set_delete_subset: "set (AList.delete k al) \<subseteq> set al"
  by (auto simp: AList.delete_eq)

lemma set_update_first: "set (update_first p f xs) \<subseteq> set xs \<union> f ` set xs"
  by (induction xs) auto

lemma room_react [simp]: "room (react k name m) = room m"
  by (simp add: react_def Let_def)

lemma refs_inv_room_refs_ok: "refs_inv s \<Longrightarrow> room_refs_ok s"
  by (auto simp: refs_inv_def room_refs_ok_def list_all_iff)

lemma room_exists_users [simp]: "room_exists (s\<lparr>users := x\<rparr>) r = room_exists s r"
  and room_exists_messages [simp]: "room_exists (s\<lparr>messages := y\<rparr>) r = room_exists s r"
  and room_exists_typing [simp]: "room_exists (s\<lparr>typingUsers := z\<rparr>) r = room_exists s r"
  and room_exists_receipts [simp]: "room_exists (s\<lparr>readReceipts := w\<rparr>) r = room_exists s r"
  by (simp_all add: room_exists_def)

lemma refs_inv_log:
  "refs_inv s \<Longrightarrow> m \<in> set (room_log s r) \<Longrightarrow> room_exists s (room m)"
proof -
  assume inv: "refs_inv s" and m: "m \<in> set (room_log s r)"
  from m obtain l where "map_of (messages s) r = Some l" and "m \<in> set l"
    by (cases "map_of (messages s) r") (auto simp: room_log_def)
  then have "(r, l) \<in> set (messages s)" by (simp add: map_of_SomeD)
  with inv \<open>m \<in> set l\<close> show ?thesis by (auto simp: refs_inv_def)
qed

lemma refs_inv_user:
  "refs_inv s \<Longrightarrow> getUserInfo s sid = Some u \<Longrightarrow> room_exists s (currentRoom u)"
  by (auto simp: refs_inv_def getUserInfo_def dest: map_of_SomeD)

lemma refs_inv_users_update:
  assumes "refs_inv s" and "room_exists s (currentRoom u)"
  shows "refs_inv (s\<lparr> users := AList.update sid u (users s) \<rparr>)"
  using assms set_update_subset [of sid u "users s"]
  by (fastforce simp: refs_inv_def)

lemma refs_inv_messages_update:
  assumes "refs_inv s" and "\<And>m. m \<in> set l \<Longrightarrow> room_exists s (room m)"
  shows "refs_inv (s\<lparr> messages := AList.update r l (messages s) \<rparr>)"
  using assms set_update_subset [of r l "messages s"]
  by (fastforce simp: refs_inv_def)


lemma add_reaction_result:
  assumes "add_reaction sid messageId k ropt s = Inr (s', out)"
  shows "s' = s \<or>
     (\<exists>u l. getUserInfo s sid = Some u
        \<and> map_of (messages s) (room_or_default ropt) = Some l
        \<and> k \<notin> set object_prototype_keys
        \<and> s' = s\<lparr> messages := AList.update (room_or_default ropt)
                  (update_first (\<lambda>m. mid m = messageId) (react k (username u)) l)
                  (messages s) \<rparr>)"
proof (cases "getUserInfo s sid")
  case None
  with assms show ?thesis by (simp add: add_reaction_def)
next
  case u: (Some u)
  show ?thesis
  proof (cases "map_of (messages s) (room_or_default ropt)")
    case None
    with assms u show ?thesis by (simp add: add_reaction_def Let_def)
  next
    case l: (Some l)
    show ?thesis
    proof (cases "find (\<lambda>m. mid m = messageId) l")
      case None
      with assms u l show ?thesis by (simp add: add_reaction_def Let_def)
    next
      case (Some m)
      with assms u l show ?thesis
        by (simp add: add_reaction_def Let_def split: if_splits)
    qed
  qed
qed

lemma refs_inv_step:
  assumes "refs_inv s" and "names_existing_room s ev" and "handle e sid ev s = Inr (s', out)"
  shows "refs_inv s'"
proof (cases ev)
  case (UserJoin name av)
  have "room_exists s (currentRoom \<lparr> uid = sid, username = name, avatar = av,
      joinedAt = now e, currentRoom = DEFAULT_ROOM, status = ''online'' \<rparr>)"
    using assms(1) by (simp add: refs_inv_def)
  from refs_inv_users_update [OF assms(1) this] assms(3) UserJoin show ?thesis
    by (auto simp: user_join_def Let_def)
next
  case (SendMessage body ropt)
  show ?thesis
  proof (cases "getUserInfo s sid")
    case None
    with assms SendMessage show ?thesis by (simp add: send_message_def)
  next
    case (Some u)
    let ?r = "room_or_default ropt"
    let ?m = "text_message e sid u body ?r"
    let ?l = "if 100 < length (room_log s ?r @ [?m]) then tl (room_log s ?r @ [?m])
              else room_log s ?r @ [?m]"
    have "room_exists s (room x)" if "x \<in> set ?l" for x
    proof -
      from that have "x \<in> set (room_log s ?r @ [?m])"
        by (auto split: if_splits dest: list.set_sel(2) [rotated])
      then show ?thesis
        using assms(1,2) SendMessage refs_inv_log [OF assms(1)]
        by (auto simp: text_message_def)
    qed
    from refs_inv_messages_update [OF assms(1) this, of ?l ?r] assms(3) SendMessage Some
    show ?thesis by (auto simp: send_message_def Let_def)
  qed
next
  case (Typing b ropt)
  with assms show ?thesis
    by (auto simp: typing_def Let_def refs_inv_def split: option.splits)
next
  case (PrivateMsg to body)
  with assms show ?thesis
    by (auto simp: private_message_def Let_def split: option.splits)
next
  case (AddReaction messageId k ropt)
  with assms(3) have "add_reaction sid messageId k ropt s = Inr (s', out)"
    by simp
  from add_reaction_result [OF this] show ?thesis
  proof (elim disjE exE conjE)
    assume "s' = s"
    with assms(1) show ?thesis by simp
  next
    fix u l
    assume l: "map_of (messages s) (room_or_default ropt) = Some l"
      and s': "s' = s\<lparr> messages := AList.update (room_or_default ropt)
                (update_first (\<lambda>m. mid m = messageId) (react k (username u)) l) (messages s) \<rparr>"
    have "room_exists s (room x)"
      if "x \<in> set (update_first (\<lambda>m. mid m = messageId) (react k (username u)) l)" for x
    proof -
      from that set_update_first [of "\<lambda>m. mid m = messageId" "react k (username u)" l]
      obtain y where "y \<in> set l" and "room x = room y" by auto
      moreover from l have "room_log s (room_or_default ropt) = l"
        by (simp add: room_log_def)
      ultimately show ?thesis using refs_inv_log [OF assms(1)] by metis
    qed
    from refs_inv_messages_update [OF assms(1) this] s' show ?thesis by simp
  qed
next
  case (MarkAsRead messageId ropt)
  with assms show ?thesis
    by (auto simp: mark_as_read_def Let_def refs_inv_def split: option.splits)
next
  case (JoinRoom r)
  show ?thesis
  proof (cases "getUserInfo s sid")
    case None
    with assms JoinRoom show ?thesis by (simp add: join_room_def)
  next
    case (Some u)
    from assms(2) JoinRoom have "room_exists s (currentRoom (u\<lparr> currentRoom := r \<rparr>))"
      by simp
    from refs_inv_users_update [OF assms(1) this] assms(3) JoinRoom Some show ?thesis
      by (auto simp: join_room_def Let_def)
  qed
next
  case (CreateRoom name priv)
  show ?thesis
  proof (cases "getUserInfo s sid")
    case None
    with assms CreateRoom show ?thesis by (simp add: create_room_def)
  next
    case (Some u)
    let ?rm = "\<lparr> rid = uuid e, rname = name, createdBy = Some (username u), createdAt = now e,
                isPrivate = Some (case priv of None \<Rightarrow> False | Some b \<Rightarrow> b) \<rparr>"
    let ?s1 = "s\<lparr> rooms := AList.update (uuid e) ?rm (rooms s) \<rparr>"
    have grow: "room_exists ?s1 r" if "room_exists s r \<or> r = uuid e" for r
      using that by (auto simp: room_exists_def update_conv')
    have 1: "refs_inv ?s1"
      using assms(1) grow by (auto simp: refs_inv_def)
    have "\<And>m. m \<in> set [] \<Longrightarrow> room_exists ?s1 (room m)" by simp
    from refs_inv_messages_update [OF 1 this, of "[]" "uuid e"]
    have 2: "refs_inv (?s1\<lparr> messages := AList.update (uuid e) [] (messages s) \<rparr>)"
      by simp
    have "room_exists (?s1\<lparr> messages := AList.update (uuid e) [] (messages s) \<rparr>)
            (currentRoom (u\<lparr> currentRoom := uuid e \<rparr>))"
      by (simp add: grow)
    from refs_inv_users_update [OF 2 this, of sid]
    have "refs_inv (?s1\<lparr> messages := AList.update (uuid e) [] (messages s),
             users := AList.update sid (u\<lparr> currentRoom := uuid e \<rparr>) (users s) \<rparr>)"
      by simp
    then have "refs_inv (?s1\<lparr> messages := AList.update (uuid e) [] (messages s),
             typingUsers := AList.update (uuid e) [] (typingUsers s),
             users := AList.update sid (u\<lparr> currentRoom := uuid e \<rparr>) (users s) \<rparr>)"
      by (simp add: refs_inv_def)
    with assms(3) CreateRoom Some show ?thesis
      by (auto simp: create_room_def Let_def)
  qed
next
  case (FileUploaded fd ropt)
  show ?thesis
  proof (cases "getUserInfo s sid")
    case None
    with assms FileUploaded show ?thesis by (simp add: file_uploaded_def)
  next
    case (Some u)
    let ?r = "room_or_default ropt"
    let ?m = "file_message e sid u fd ?r"
    let ?l = "room_log s ?r @ [?m]"
    have "room_exists s (room x)" if "x \<in> set ?l" for x
      using that assms(1,2) FileUploaded refs_inv_log [OF assms(1)]
      by (auto simp: file_message_def)
    from refs_inv_messages_update [OF assms(1) this, of ?l ?r] assms(3) FileUploaded Some
    show ?thesis by (auto simp: file_uploaded_def Let_def)
  qed
next
  case Disconnect
  with assms set_delete_subset [of sid "users s"] show ?thesis
    by (fastforce simp: disconnect_def Let_def refs_inv_def split: option.splits)
next
  case (UpdateStatus st)
  show ?thesis
  proof (cases "getUserInfo s sid")
    case None
    with assms UpdateStatus show ?thesis by (simp add: update_status_def)
  next
    case (Some u)
    from refs_inv_user [OF assms(1) Some]
    have "room_exists s (currentRoom (u\<lparr> status := st \<rparr>))" by simp
    from refs_inv_users_update [OF assms(1) this] assms(3) UpdateStatus Some show ?thesis
      by (auto simp: update_status_def)
  qed
next
  case (NoPayload name)
  with assms(3) show ?thesis by simp
qed

lemma refs_inv_init: "refs_inv (init_server t0)"
  by (simp add: refs_inv_def init_server_def room_exists_def)

lemma run_reachable: "reachable s \<Longrightarrow> run s evs = Inr s' \<Longrightarrow> reachable s'"
proof (induction evs arbitrary: s)
  case Nil
  then show ?case by simp
next
  case (Cons x evs)
  obtain e sid ev where x: "x = (e, sid, ev)" by (cases x) auto
  from Cons.prems(2) x obtain s1 out where h: "handle e sid ev s = Inr (s1, out)"
    and r: "run s1 evs = Inr s'"
    by (auto split: sum.splits)
  from Cons.prems(1) h have "reachable s1" by (rule reachable.step)
  from Cons.IH [OF this r] show ?case .
qed

text \<open>
  C2, as the claim states it, fails: no handler looks a room id up in the room registry.
  Alice joins, sends join_room for the id nowhere and then a message to nowhere. In the
  state reached the registry holds the default room only, alice's current room is
  nowhere, and the stored message has the room nowhere.
\<close>

theorem room_refs_counterexample:
  "run (init_server ''t0'') alice_wanders = Inr alice_in_nowhere
   \<and> reachable alice_in_nowhere
   \<and> map fst (rooms alice_in_nowhere) = [''global'']
   \<and> map (currentRoom \<circ> snd) (users alice_in_nowhere) = [''nowhere'']
   \<and> map room (room_log alice_in_nowhere ''nowhere'') = [''nowhere'']
   \<and> \<not> room_refs_ok alice_in_nowhere"
proof -
  have r: "run (init_server ''t0'') alice_wanders = Inr alice_in_nowhere"
    by (simp add: alice_wanders_def alice_in_nowhere_def lost_message_def alice_joined_def
        user_join_def join_room_def send_message_def example_defs)
  from reachable.start r have "reachable alice_in_nowhere" by (rule run_reachable)
  with r show ?thesis
    by (simp add: alice_in_nowhere_def lost_message_def alice_joined_def text_message_def
        room_refs_ok_def room_exists_def example_defs)
qed

text \<open>
  C2, amended. In every state reached from the start of the process by events of which
  each join_room, send_message and file_uploaded names a room that exists in the room
  registry when the event is handled, the current room of every registered connection
  and the room of every stored message exist in the room registry.
\<close>

theorem room_refs_ok_when_rooms_named:
  assumes "reachable_naming_rooms s"
  shows "room_refs_ok s"
proof -
  from assms have "refs_inv s"
    by (induction rule: reachable_naming_rooms.induct)
       (auto intro: refs_inv_init refs_inv_step)
  then show ?thesis by (rule refs_inv_room_refs_ok)
qed


theorem room_refs_ok_when_rooms_named_witness:
  "reachable_naming_rooms alice_said_hi \<and> room_refs_ok alice_said_hi"
proof -
  have 0: "reachable_naming_rooms (init_server ''t0'')"
    by (rule start_naming)
  have "names_existing_room (init_server ''t0'') (UserJoin ''alice'' None)" by simp
  moreover have "handle \<lparr>uuid = ''u1'', now = ''t1''\<rparr> ''sockA'' (UserJoin ''alice'' None)
      (init_server ''t0'') = Inr (alice_joined, snd (user_join \<lparr>uuid = ''u1'', now = ''t1''\<rparr>
        ''sockA'' ''alice'' None (init_server ''t0'')))"
    by (simp add: alice_joined_def user_join_def example_defs)
  ultimately have 1: "reachable_naming_rooms alice_joined"
    using 0 by (blast intro: step_naming)
  have "names_existing_room alice_joined (SendMessage ''hi'' None)"
    by (simp add: room_exists_def alice_joined_def example_defs)
  moreover have "handle \<lparr>uuid = ''m1'', now = ''t2''\<rparr> ''sockA'' (SendMessage ''hi'' None)
      alice_joined = Inr (alice_said_hi, snd (send_message \<lparr>uuid = ''m1'', now = ''t2''\<rparr>
        ''sockA'' ''hi'' None alice_joined))"
    by (simp add: alice_said_hi_def alice_joined_def hi_message_def send_message_def example_defs)
  ultimately have 2: "reachable_naming_rooms alice_said_hi"
    using 1 by (blast intro: step_naming)
  from 2 room_refs_ok_when_rooms_named [OF 2] show ?thesis by simp
qed

subsection \<open>Toggling a reaction\<close>

lemma all_stored_log: "all_stored P s \<Longrightarrow> m \<in> set (room_log s r) \<Longrightarrow> P m"
proof -
  assume inv: "all_stored P s" and m: "m \<in> set (room_log s r)"
  from m obtain l where "map_of (messages s) r = Some l" and "m \<in> set l"
    by (cases "map_of (messages s) r") (auto simp: room_log_def)
  then have "(r, l) \<in> set (messages s)" by (simp add: map_of_SomeD)
  with inv \<open>m \<in> set l\<close> show ?thesis by (auto simp: all_stored_def)
qed

lemma all_stored_update:
  assumes "all_stored P s" and "\<And>m. m \<in> set l \<Longrightarrow> P m"
  shows "all_stored P (s\<lparr> messages := AList.update r l (messages s) \<rparr>)"
  using assms set_update_subset [of r l "messages s"]
  by (fastforce simp: all_stored_def)

lemma all_stored_same: "all_stored P s \<Longrightarrow> messages s' = messages s \<Longrightarrow> all_stored P s'"
  by (simp add: all_stored_def)

lemma all_stored_step:
  assumes "all_stored P s" and "handle e sid ev s = Inr (s', out)"
    and new_text: "\<And>u body r. P (text_message e sid u body r)"
    and new_file: "\<And>u fd r. P (file_message e sid u fd r)"
    and react: "\<And>k n m. P m \<Longrightarrow> P (react k n m)"
  shows "all_stored P s'"
proof (cases ev)
  case (UserJoin name av)
  with assms(2) have "messages s' = messages s" by (auto simp: user_join_def Let_def)
  with assms(1) show ?thesis by (rule all_stored_same)
next
  case (SendMessage body ropt)
  show ?thesis
  proof (cases "getUserInfo s sid")
    case None
    with assms(1,2) SendMessage show ?thesis by (simp add: send_message_def)
  next
    case (Some u)
    let ?r = "room_or_default ropt"
    let ?m = "text_message e sid u body ?r"
    let ?l = "if 100 < length (room_log s ?r @ [?m]) then tl (room_log s ?r @ [?m])
              else room_log s ?r @ [?m]"
    have "P x" if "x \<in> set ?l" for x
    proof -
      from that have "x \<in> set (room_log s ?r @ [?m])"
        by (auto split: if_splits dest: list.set_sel(2) [rotated])
      then show ?thesis
        using new_text all_stored_log [OF assms(1)] by auto
    qed
    from all_stored_update [OF assms(1) this, of ?l ?r] assms(2) SendMessage Some
    show ?thesis by (auto simp: send_message_def Let_def)
  qed
next
  case (Typing b ropt)
  with assms(2) have "messages s' = messages s"
    by (auto simp: typing_def Let_def split: option.splits)
  with assms(1) show ?thesis by (rule all_stored_same)
next
  case (PrivateMsg to body)
  with assms(2) have "messages s' = messages s"
    by (auto simp: private_message_def Let_def split: option.splits)
  with assms(1) show ?thesis by (rule all_stored_same)
next
  case (AddReaction messageId k ropt)
  with assms(2) have "add_reaction sid messageId k ropt s = Inr (s', out)"
    by simp
  from add_reaction_result [OF this] show ?thesis
  proof (elim disjE exE conjE)
    assume "s' = s"
    with assms(1) show ?thesis by simp
  next
    fix u l
    assume l: "map_of (messages s) (room_or_default ropt) = Some l"
      and s': "s' = s\<lparr> messages := AList.update (room_or_default ropt)
                (update_first (\<lambda>m. mid m = messageId) (react k (username u)) l) (messages s) \<rparr>"
    have "P x"
      if "x \<in> set (update_first (\<lambda>m. mid m = messageId) (react k (username u)) l)" for x
    proof -
      from l have "room_log s (room_or_default ropt) = l"
        by (simp add: room_log_def)
      with all_stored_log [OF assms(1)] have "\<And>y. y \<in> set l \<Longrightarrow> P y" by metis
      with that set_update_first [of "\<lambda>m. mid m = messageId" "react k (username u)" l]
      show ?thesis using react by auto
    qed
    from all_stored_update [OF assms(1) this] s' show ?thesis by simp
  qed
next
  case (MarkAsRead messageId ropt)
  with assms(2) have "messages s' = messages s"
    by (auto simp: mark_as_read_def Let_def split: option.splits)
  with assms(1) show ?thesis by (rule all_stored_same)
next
  case (JoinRoom r)
  with assms(2) have "messages s' = messages s"
    by (auto simp: join_room_def Let_def split: option.splits)
  with assms(1) show ?thesis by (rule all_stored_same)
next
  case (CreateRoom name priv)
  show ?thesis
  proof (cases "getUserInfo s sid")
    case None
    with assms(1,2) CreateRoom show ?thesis by (simp add: create_room_def)
  next
    case (Some u)
    have "\<And>m. m \<in> set [] \<Longrightarrow> P m" by simp
    from all_stored_update [OF assms(1) this, of "[]" "uuid e"]
    have "all_stored P (s\<lparr> messages := AList.update (uuid e) [] (messages s) \<rparr>)" .
    moreover from assms(2) CreateRoom Some
    have "messages s' = AList.update (uuid e) [] (messages s)"
      by (auto simp: create_room_def Let_def)
    ultimately show ?thesis by (simp add: all_stored_def)
  qed
next
  case (FileUploaded fd ropt)
  show ?thesis
  proof (cases "getUserInfo s sid")
    case None
    with assms(1,2) FileUploaded show ?thesis by (simp add: file_uploaded_def)
  next
    case (Some u)
    let ?r = "room_or_default ropt"
    let ?m = "file_message e sid u fd ?r"
    let ?l = "room_log s ?r @ [?m]"
    have "P x" if "x \<in> set ?l" for x
      using that new_file all_stored_log [OF assms(1)] by auto
    from all_stored_update [OF assms(1) this, of ?l ?r] assms(2) FileUploaded Some
    show ?thesis by (auto simp: file_uploaded_def Let_def)
  qed
next
  case Disconnect
  with assms(2) have "messages s' = messages s"
    by (auto simp: disconnect_def Let_def split: option.splits)
  with assms(1) show ?thesis by (rule all_stored_same)
next
  case (UpdateStatus st)
  with assms(2) have "messages s' = messages s"
    by (auto simp: update_status_def Let_def split: option.splits)
  with assms(1) show ?thesis by (rule all_stored_same)
next
  case (NoPayload name)
  with assms(2) show ?thesis by simp
qed

lemma distinct_toggle: "distinct xs \<Longrightarrow> distinct (toggle n xs)"
  by (simp add: toggle_def)

lemma reactors_react:
  "reactors (react k n m) k' = (if k' = k then toggle n (reactors m k) else reactors m k')"
  by (simp add: reactors_def react_def Let_def)

lemma reactors_distinct_react: "reactors_distinct m \<Longrightarrow> reactors_distinct (react k n m)"
  by (simp add: reactors_distinct_def reactors_react distinct_toggle)

lemma reachable_reactors_distinct: "reachable s \<Longrightarrow> all_stored reactors_distinct s"
proof (induction rule: reachable.induct)
  case (start t0)
  show ?case by (simp add: all_stored_def init_server_def)
next
  case (step s e sid ev s' out)
  from step.IH step.hyps(2) show ?case
    by (rule all_stored_step)
       (simp_all add: reactors_distinct_def reactors_def text_message_def file_message_def
          reactors_distinct_react [unfolded reactors_distinct_def reactors_def])
qed


lemma find_update_first:
  "find p l = Some m \<Longrightarrow> p (f m) \<Longrightarrow> find p (update_first p f l) = Some (f m)"
  by (induction l) (auto split: if_splits)

lemma mid_react [simp]: "mid (react k n m) = mid m"
  by (simp add: react_def Let_def)

lemma set_toggle:
  "distinct xs \<Longrightarrow> set (toggle n xs) = (if n \<in> set xs then set xs - {n} else insert n (set xs))"
  by (simp add: toggle_def)

lemma set_toggle_twice: "distinct xs \<Longrightarrow> set (toggle n (toggle n xs)) = set xs"
  by (auto simp: toggle_def remove1_append)

lemma add_reaction_toggles:
  assumes u: "getUserInfo s sid = Some u"
    and l: "map_of (messages s) (room_or_default ropt) = Some l"
    and m: "find (\<lambda>m. mid m = messageId) l = Some m"
    and k: "k \<notin> set object_prototype_keys"
  shows "\<exists>s1. handle e sid (AddReaction messageId k ropt) s =
            Inr (s1, [Emit (ToRoom (room_or_default ropt))
                        (MessageUpdated (react k (username u) m))])
          \<and> getUserInfo s1 sid = Some u
          \<and> (\<exists>l1. map_of (messages s1) (room_or_default ropt) = Some l1
                \<and> find (\<lambda>m. mid m = messageId) l1 = Some (react k (username u) m))"
proof -
  from m have "mid m = messageId"
    by (auto simp: find_Some_iff)
  then have "mid (react k (username u) m) = messageId" by simp
  with m have "find (\<lambda>m. mid m = messageId)
      (update_first (\<lambda>m. mid m = messageId) (react k (username u)) l)
        = Some (react k (username u) m)"
    by (intro find_update_first)
  with u l m k show ?thesis
    by (simp add: add_reaction_def Let_def broadcastToRoom_def getUserInfo_def update_conv')
qed

text \<open>
  For a reaction kind that is a key of its own, in a state of the server: one
  add_reaction adds the username to the reactors of that kind if it is absent and removes
  it if it is present, and a second one restores the set of reactors.
\<close>

lemma reaction_toggle_involution:
  assumes "reachable s" and u: "getUserInfo s sid = Some u"
    and l: "map_of (messages s) (room_or_default ropt) = Some l"
    and m: "find (\<lambda>m. mid m = messageId) l = Some m"
    and k: "k \<notin> set object_prototype_keys"
  shows "\<exists>s1 out1 s2 out2 l1 m1 l2 m2.
      handle e sid (AddReaction messageId k ropt) s = Inr (s1, out1)
      \<and> map_of (messages s1) (room_or_default ropt) = Some l1
      \<and> find (\<lambda>m. mid m = messageId) l1 = Some m1
      \<and> set (reactors m1 k) =
           (if username u \<in> set (reactors m k) then set (reactors m k) - {username u}
            else insert (username u) (set (reactors m k)))
      \<and> handle e' sid (AddReaction messageId k ropt) s1 = Inr (s2, out2)
      \<and> map_of (messages s2) (room_or_default ropt) = Some l2
      \<and> find (\<lambda>m. mid m = messageId) l2 = Some m2
      \<and> set (reactors m2 k) = set (reactors m k)"
proof -
  from m have "m \<in> set l" by (auto simp: find_Some_iff)
  with l have "m \<in> set (room_log s (room_or_default ropt))" by (simp add: room_log_def)
  with reachable_reactors_distinct [OF assms(1)] have "reactors_distinct m"
    by (rule all_stored_log)
  then have d: "distinct (reactors m k)" by (simp add: reactors_distinct_def)
  let ?m1 = "react k (username u) m"
  from add_reaction_toggles [OF u l m k, of e] obtain s1 l1 where
    h1: "handle e sid (AddReaction messageId k ropt) s =
           Inr (s1, [Emit (ToRoom (room_or_default ropt)) (MessageUpdated ?m1)])"
    and u1: "getUserInfo s1 sid = Some u"
    and l1: "map_of (messages s1) (room_or_default ropt) = Some l1"
    and m1: "find (\<lambda>m. mid m = messageId) l1 = Some ?m1"
    by blast
  let ?m2 = "react k (username u) ?m1"
  from add_reaction_toggles [OF u1 l1 m1 k, of e'] obtain s2 l2 where
    h2: "handle e' sid (AddReaction messageId k ropt) s1 =
           Inr (s2, [Emit (ToRoom (room_or_default ropt)) (MessageUpdated ?m2)])"
    and l2: "map_of (messages s2) (room_or_default ropt) = Some l2"
    and m2: "find (\<lambda>m. mid m = messageId) l2 = Some ?m2"
    by blast
  have r1: "set (reactors ?m1 k) =
           (if username u \<in> set (reactors m k) then set (reactors m k) - {username u}
            else insert (username u) (set (reactors m k)))"
    using d by (simp add: reactors_react set_toggle)
  have r2: "set (reactors ?m2 k) = set (reactors m k)"
    using d by (simp add: reactors_react set_toggle_twice)
  from h1 l1 m1 r1 h2 l2 m2 r2 show ?thesis by blast
qed

lemma reachable_alice_said_hi: "reachable alice_said_hi"
  using reachable.start run_alice_says_hi by (rule run_reachable)

lemma reaction_toggle_example:
  "\<exists>s1 out1 s2 out2 l1 m1 l2 m2.
      handle \<lparr>uuid = ''u3'', now = ''t3''\<rparr> ''sockA'' (AddReaction ''m1'' ''like'' None)
        alice_said_hi = Inr (s1, out1)
      \<and> map_of (messages s1) DEFAULT_ROOM = Some l1
      \<and> find (\<lambda>m. mid m = ''m1'') l1 = Some m1
      \<and> set (reactors m1 ''like'') = {''alice''}
      \<and> handle \<lparr>uuid = ''u4'', now = ''t4''\<rparr> ''sockA'' (AddReaction ''m1'' ''like'' None) s1
           = Inr (s2, out2)
      \<and> map_of (messages s2) DEFAULT_ROOM = Some l2
      \<and> find (\<lambda>m. mid m = ''m1'') l2 = Some m2
      \<and> set (reactors m2 ''like'') = {}"
proof -
  have u: "getUserInfo alice_said_hi ''sockA'' = Some alice"
    by (simp add: getUserInfo_def alice_said_hi_def alice_joined_def)
  have l: "map_of (messages alice_said_hi) (room_or_default None) = Some [hi_message]"
    by (simp add: alice_said_hi_def alice_joined_def example_defs)
  have m: "find (\<lambda>m. mid m = ''m1'') [hi_message] = Some hi_message"
    by (simp add: hi_message_def text_message_def)
  have k: "''like'' \<notin> set object_prototype_keys"
    by (simp add: object_prototype_keys_def)
  have r: "reactors hi_message ''like'' = []"
    by (simp add: reactors_def hi_message_def text_message_def)
  from reaction_toggle_involution [OF reachable_alice_said_hi u l m k,
      of "\<lparr>uuid = ''u3'', now = ''t3''\<rparr>" "\<lparr>uuid = ''u4'', now = ''t4''\<rparr>"]
  show ?thesis
    unfolding r by (simp add: room_or_default_def alice_def)
qed

text \<open>
  C5, at the failing input. The toggle is an involution for a reaction kind that is a key
  of its own (\<open>reaction_toggle_involution\<close>), but not for every kind. Alice has sent the
  message m1, which nobody has reacted to. Her add_reaction of the kind constructor to m1
  finds the member that every object inherits, which is not an array: the handler throws,
  so the toggle does not add her username.
\<close>

theorem add_reaction_inherited_key:
  "getUserInfo alice_said_hi ''sockA'' = Some alice
   \<and> room_log alice_said_hi DEFAULT_ROOM = [hi_message]
   \<and> mid hi_message = ''m1''
   \<and> reactors hi_message ''constructor'' = []
   \<and> handle \<lparr>uuid = ''u3'', now = ''t3''\<rparr> ''sockA'' (AddReaction ''m1'' ''constructor'' None)
        alice_said_hi = Inl TypeError"
  by (simp add: alice_said_hi_def alice_joined_def hi_message_def text_message_def
      add_reaction_def reactors_def object_prototype_keys_def example_defs)

end
